theory Spec2Isabelle
  imports Main "HOL-Library.Word" "HOL-Library.Sublist"
begin

section \<open>Values of the host language\<close>

text \<open>
  The library is TypeScript. A \<^verbatim>\<open>Buffer\<close> is a list of bytes; a parameter that may be
  \<^verbatim>\<open>null\<close> or \<^verbatim>\<open>undefined\<close> at run time is an \<open>option\<close>. A \<^verbatim>\<open>number\<close> is modelled
  as an \<open>int\<close>: the embedding covers the integer-valued numbers of the safe range, where
  multiplication is exact and the conversion to a string is the plain decimal numeral.
  Strings are lists of characters; \<^verbatim>\<open>toLowerCase\<close> is modelled on the ASCII letters.
\<close>

type_synonym bytes = "8 word list"

definition digit_char :: "nat \<Rightarrow> char" where
  "digit_char n = ''0123456789'' ! (n mod 10)"

function digits :: "nat \<Rightarrow> string" where
  "digits n = (if n < 10 then [digit_char n] else digits (n div 10) @ [digit_char (n mod 10)])"
  by pat_completeness auto
termination
  by (relation "measure id") auto

declare digits.simps [simp del]

text \<open>The string a template literal \<^verbatim>\<open>${n}\<close> inserts for an integer-valued number.\<close>

definition numberToString :: "int \<Rightarrow> string" where
  "numberToString n = (if n < 0 then CHR ''-'' # digits (nat (- n)) else digits (nat n))"

text \<open>\<^verbatim>\<open>String.prototype.lastIndexOf\<close> for a single character: the greatest index holding
  the character, \<open>-1\<close> when there is none.\<close>

primrec lastIndexOf_from :: "char \<Rightarrow> string \<Rightarrow> int \<Rightarrow> int \<Rightarrow> int" where
  "lastIndexOf_from c [] i found = found"
| "lastIndexOf_from c (x # xs) i found =
     lastIndexOf_from c xs (i + 1) (if x = c then i else found)"

definition lastIndexOf :: "string \<Rightarrow> char \<Rightarrow> int" where
  "lastIndexOf s c = lastIndexOf_from c s 0 (- 1)"

text \<open>\<^verbatim>\<open>String.prototype.substring(start, end)\<close>: both indices are clamped to the string
  and swapped when \<open>start\<close> exceeds \<open>end\<close>; \<^verbatim>\<open>substring(start)\<close> runs to the end.\<close>

definition clamp_index :: "string \<Rightarrow> int \<Rightarrow> nat" where
  "clamp_index s i = nat (max 0 (min i (int (length s))))"

definition substring :: "string \<Rightarrow> int \<Rightarrow> int \<Rightarrow> string" where
  "substring s start end' =
     (let a = clamp_index s start; b = clamp_index s end'
      in take (max a b - min a b) (drop (min a b) s))"

definition substring_from :: "string \<Rightarrow> int \<Rightarrow> string" where
  "substring_from s start = drop (clamp_index s start) s"

definition lower_char :: "char \<Rightarrow> char" where
  "lower_char c =
     (case map_of (zip ''ABCDEFGHIJKLMNOPQRSTUVWXYZ'' ''abcdefghijklmnopqrstuvwxyz'') c of
        Some l \<Rightarrow> l
      | None \<Rightarrow> c)"

definition toLowerCase :: "string \<Rightarrow> string" where
  "toLowerCase s = map lower_char s"

section \<open>Error classes (errors/image-processing.errors.ts)\<close>

datatype error_class =
    Error
  | TypeError
  | ImageProcessingError
  | UnsupportedImageFormatError
  | ImageValidationError
  | ImageProcessingFailedError
  | StorageError

text \<open>A thrown value: an error object with its class, its message, the \<^verbatim>\<open>code\<close> field of the
  library's classes and the wrapped \<^verbatim>\<open>originalError\<close>.\<close>

datatype js_error =
  JsError (cls: error_class) (message: string) (code: "string option")
          (originalError: "js_error option")

primrec superclasses :: "error_class \<Rightarrow> error_class list" where
  "superclasses Error = []"
| "superclasses TypeError = [Error]"
| "superclasses ImageProcessingError = [Error]"
| "superclasses UnsupportedImageFormatError = [ImageProcessingError, Error]"
| "superclasses ImageValidationError = [ImageProcessingError, Error]"
| "superclasses ImageProcessingFailedError = [ImageProcessingError, Error]"
| "superclasses StorageError = [ImageProcessingError, Error]"

definition instanceof :: "js_error \<Rightarrow> error_class \<Rightarrow> bool" where
  "instanceof e c = (cls e = c \<or> c \<in> set (superclasses (cls e)))"

definition new_Error :: "string \<Rightarrow> js_error" where
  "new_Error msg = JsError Error msg None None"

definition new_TypeError :: "string \<Rightarrow> js_error" where
  "new_TypeError msg = JsError TypeError msg None None"

definition new_UnsupportedImageFormatError :: "string \<Rightarrow> js_error" where
  "new_UnsupportedImageFormatError format =
     JsError UnsupportedImageFormatError (''Unsupported image format: '' @ format)
       (Some ''UNSUPPORTED_FORMAT'') None"

definition new_ImageValidationError :: "string \<Rightarrow> js_error" where
  "new_ImageValidationError msg =
     JsError ImageValidationError msg (Some ''VALIDATION_ERROR'') None"

definition new_ImageProcessingFailedError :: "string \<Rightarrow> js_error option \<Rightarrow> js_error" where
  "new_ImageProcessingFailedError msg orig =
     JsError ImageProcessingFailedError msg (Some ''PROCESSING_FAILED'') orig"

definition new_StorageError :: "string \<Rightarrow> js_error option \<Rightarrow> js_error" where
  "new_StorageError msg orig = JsError StorageError msg (Some ''STORAGE_ERROR'') orig"

section \<open>File naming (utils/file-naming.utils.ts)\<close>

definition getFileExtension :: "string \<Rightarrow> string" where
  "getFileExtension filename =
     (let lastDotIndex = lastIndexOf filename CHR ''.''
      in if lastDotIndex = - 1 then [] else substring_from filename lastDotIndex)"

definition getBaseName :: "string \<Rightarrow> string" where
  "getBaseName filename =
     (let lastDotIndex = lastIndexOf filename CHR ''.''
      in if lastDotIndex = - 1 then filename else substring filename 0 lastDotIndex)"

text \<open>The parameter \<^verbatim>\<open>dpr: number = 1\<close>: an omitted argument is \<open>None\<close> and takes the default.\<close>

definition generateFileName :: "string \<Rightarrow> int \<Rightarrow> string \<Rightarrow> int option \<Rightarrow> string" where
  "generateFileName originalName width format dpr_arg =
     (let dpr = (case dpr_arg of None \<Rightarrow> 1 | Some d \<Rightarrow> d);
          baseName = getBaseName originalName
      in baseName @ ''_'' @ numberToString width @ ''w@'' @ numberToString dpr @ ''x.'' @ format)"

text \<open>\<^verbatim>\<open>uuidv4()\<close> draws from a random source; the drawn token is a parameter here.\<close>

definition generateOriginalFileName :: "string \<Rightarrow> string \<Rightarrow> string" where
  "generateOriginalFileName uuid originalName = uuid @ getFileExtension originalName"

definition generateOriginalPath :: "string \<Rightarrow> string \<Rightarrow> string option \<Rightarrow> string" where
  "generateOriginalPath uuid originalName basePath_arg =
     (let basePath = (case basePath_arg of None \<Rightarrow> ''/uploads/originals'' | Some p \<Rightarrow> p);
          fileName = generateOriginalFileName uuid originalName
      in basePath @ ''/'' @ fileName)"

text \<open>The naming rule in the specification's words: the name with the suffix that starts at
  its last dot removed, the whole name when it has no dot.\<close>

definition spec_basename :: "string \<Rightarrow> string" where
  "spec_basename name =
     (if CHR ''.'' \<in> set name
      then rev (tl (dropWhile (\<lambda>c. c \<noteq> CHR ''.'') (rev name)))
      else name)"

definition spec_variant_name :: "string \<Rightarrow> int \<Rightarrow> string \<Rightarrow> int \<Rightarrow> string" where
  "spec_variant_name name width formatType dprRatio =
     spec_basename name @ ''_'' @ numberToString width @ ''w@'' @ numberToString dprRatio
       @ ''x.'' @ formatType"

section \<open>Validation (utils/image-validator.ts)\<close>

definition SUPPORTED_MIME_TYPES :: "string list" where
  "SUPPORTED_MIME_TYPES =
     [''image/jpeg'', ''image/jpg'', ''image/png'', ''image/webp'', ''image/avif'',
      ''image/gif'', ''image/bmp'', ''image/tiff'', ''image/svg+xml'']"

definition SUPPORTED_EXTENSIONS :: "string list" where
  "SUPPORTED_EXTENSIONS =
     [''.jpg'', ''.jpeg'', ''.png'', ''.webp'', ''.avif'', ''.gif'', ''.bmp'', ''.tiff'', ''.svg'']"

definition validateMimeType :: "string \<Rightarrow> js_error + unit" where
  "validateMimeType mimeType =
     (if toLowerCase mimeType \<notin> set SUPPORTED_MIME_TYPES
      then Inl (new_UnsupportedImageFormatError mimeType)
      else Inr ())"

definition validateExtension :: "string \<Rightarrow> js_error + unit" where
  "validateExtension filename =
     (let extension = getFileExtension filename
      in if toLowerCase extension \<notin> set SUPPORTED_EXTENSIONS
         then Inl (new_UnsupportedImageFormatError extension)
         else Inr ())"

definition validateFileSize :: "bytes \<Rightarrow> int option \<Rightarrow> js_error + unit" where
  "validateFileSize buffer maxSize_arg =
     (let maxSizeInBytes = (case maxSize_arg of None \<Rightarrow> 10 * 1024 * 1024 | Some m \<Rightarrow> m)
      in if int (length buffer) > maxSizeInBytes
         then Inl (new_ImageValidationError
                (''File size exceeds maximum allowed size of '' @ numberToString maxSizeInBytes
                   @ '' bytes''))
         else Inr ())"

text \<open>The guards \<^verbatim>\<open>if (mimeType)\<close> and \<^verbatim>\<open>if (maxSizeInBytes)\<close> test truthiness: an absent
  argument, the empty string and the number zero all skip the check.\<close>

definition truthy_number :: "int option \<Rightarrow> bool" where
  "truthy_number n = (case n of None \<Rightarrow> False | Some v \<Rightarrow> v \<noteq> 0)"

definition validateFile ::
  "bytes option \<Rightarrow> string \<Rightarrow> string option \<Rightarrow> int option \<Rightarrow> js_error + unit" where
  "validateFile buffer filename mimeType maxSizeInBytes =
     (case buffer of
        None \<Rightarrow> Inl (new_ImageValidationError ''File buffer is empty'')
      | Some buf \<Rightarrow>
          if length buf = 0 then Inl (new_ImageValidationError ''File buffer is empty'')
          else
            (case validateExtension filename of
               Inl e \<Rightarrow> Inl e
             | Inr _ \<Rightarrow>
                 (case (case mimeType of
                          None \<Rightarrow> Inr ()
                        | Some m \<Rightarrow> if m = [] then Inr () else validateMimeType m) of
                    Inl e \<Rightarrow> Inl e
                  | Inr _ \<Rightarrow>
                      (if truthy_number maxSizeInBytes then validateFileSize buf maxSizeInBytes
                       else Inr ()))))"

section \<open>Configuration values and results (interfaces/image-processing.interface.ts)\<close>

record ImageSize =
  width :: int
  height :: "int option"

text \<open>The type of a format is the string it is at run time, the key of the result and a
  part of the variant's name; the interface allows \<^verbatim>\<open>webp\<close>, \<^verbatim>\<open>avif\<close>, \<^verbatim>\<open>jpeg\<close> and
  \<^verbatim>\<open>png\<close>.\<close>

record ImageFormat =
  ftype :: string
  quality :: "int option"

record DPRConfig =
  ratios :: "int list"

text \<open>What the getters of the configuration object hand to the pipeline: the three axes.\<close>

record ImageProcessingConfig =
  sizes :: "ImageSize list"
  formats :: "ImageFormat list"
  dpr :: DPRConfig

record ImageProcessingResult =
  original :: string
  generated :: "string \<rightharpoonup> string list"

datatype ProcessedImage =
  ProcessedImage (p_buffer: bytes) (p_format: string) (p_width: int) (p_height: int)

section \<open>The injected collaborators\<close>

text \<open>
  The pipeline is given its collaborators by injection and awaits three of their
  operations: the image processor's \<^verbatim>\<open>validateImage\<close> and \<^verbatim>\<open>processImage\<close>, and the
  storage driver's \<^verbatim>\<open>upload\<close>. Each call is recorded in a history, and each collaborator
  answers as a function of the history so far and of its arguments, so that an answer may
  differ from one call to the next; the properties hold for every such behaviour, that of
  the library's own image processor and of the doubles of the tests included. A rejected
  promise is \<open>Inl\<close> of the error object it carries; a collaborator is taken to reject with
  an error object, a value that has a message. The random token of \<^verbatim>\<open>uuidv4\<close> is drawn
  the same way. Within one call of \<^verbatim>\<open>processImage\<close> the awaits run one after the other,
  and the configuration is not changed while the call runs. What the pipeline writes to the
  console is not part of the model.
\<close>

datatype call =
    ValidateImage bytes
  | Transform bytes ImageSize ImageFormat
  | Upload string bytes

record services =
  ip_validateImage :: "call list \<Rightarrow> bytes \<Rightarrow> js_error + bool"
  ip_processImage :: "call list \<Rightarrow> bytes \<Rightarrow> ImageSize \<Rightarrow> ImageFormat \<Rightarrow> js_error + ProcessedImage"
  sd_upload :: "call list \<Rightarrow> string \<Rightarrow> bytes \<Rightarrow> js_error + string"
  uuidv4 :: "call list \<Rightarrow> string"

section \<open>The pipeline (services/image-pipeline.service.ts)\<close>

definition uploadFile ::
  "services \<Rightarrow> string \<Rightarrow> bytes \<Rightarrow> call list \<Rightarrow> (js_error + string) \<times> call list" where
  "uploadFile env filename buffer log =
     (case sd_upload env log filename buffer of
        Inl error \<Rightarrow>
          (Inl (new_StorageError
                  (''Failed to upload file '' @ filename @ '': '' @ message error) (Some error)),
           log @ [Upload filename buffer])
      | Inr path \<Rightarrow> (Inr path, log @ [Upload filename buffer]))"

text \<open>\<^verbatim>\<open>size.height ? size.height * dprRatio : undefined\<close>: a height of zero is falsy.\<close>

definition actualSize :: "ImageSize \<Rightarrow> int \<Rightarrow> ImageSize" where
  "actualSize size' dprRatio =
     \<lparr>width = width size' * dprRatio,
      height = (case height size' of
                  None \<Rightarrow> None
                | Some h \<Rightarrow> if h \<noteq> 0 then Some (h * dprRatio) else None)\<rparr>"

text \<open>The body of the inner \<^verbatim>\<open>try\<close> up to the upload of the variant: it yields the path the
  storage driver returned, or the error thrown on the way.\<close>

definition produce_variant ::
  "services \<Rightarrow> string \<Rightarrow> bytes \<Rightarrow> ImageSize \<Rightarrow> ImageFormat \<Rightarrow> int \<Rightarrow> call list
     \<Rightarrow> (js_error + string) \<times> call list" where
  "produce_variant env originalFilename buffer size' format dprRatio log =
     (case ip_processImage env log buffer (actualSize size' dprRatio) format of
        Inl error \<Rightarrow> (Inl error, log @ [Transform buffer (actualSize size' dprRatio) format])
      | Inr processedImage \<Rightarrow>
          uploadFile env
            (generateFileName originalFilename (width size') (ftype format) (Some dprRatio))
            (p_buffer processedImage)
            (log @ [Transform buffer (actualSize size' dprRatio) format]))"

text \<open>\<^verbatim>\<open>generatedFiles[format.type].push(generatedPath)\<close>: on a missing key the receiver is
  \<^verbatim>\<open>undefined\<close> and the call throws a TypeError.\<close>

definition push_generated ::
  "(string \<rightharpoonup> string list) \<Rightarrow> string \<Rightarrow> string \<Rightarrow> js_error + (string \<rightharpoonup> string list)" where
  "push_generated generatedFiles key generatedPath =
     (case generatedFiles key of
        None \<Rightarrow> Inl (new_TypeError ''Cannot read properties of undefined (reading 'push')'')
      | Some paths \<Rightarrow> Inr (generatedFiles(key \<mapsto> paths @ [generatedPath])))"

text \<open>One turn of the innermost loop: the \<^verbatim>\<open>try\<close> body, and the \<^verbatim>\<open>catch\<close> that only writes
  to the console and goes on with the map as it was.\<close>

definition process_tuple ::
  "services \<Rightarrow> string \<Rightarrow> bytes \<Rightarrow> ImageSize \<Rightarrow> ImageFormat \<Rightarrow> int
     \<Rightarrow> (string \<rightharpoonup> string list) \<times> call list \<Rightarrow> (string \<rightharpoonup> string list) \<times> call list" where
  "process_tuple env originalFilename buffer size' format dprRatio st =
     (case produce_variant env originalFilename buffer size' format dprRatio (snd st) of
        (Inl error, log') \<Rightarrow> (fst st, log')
      | (Inr generatedPath, log') \<Rightarrow>
          (case push_generated (fst st) (ftype format) generatedPath of
             Inl error \<Rightarrow> (fst st, log')
           | Inr generatedFiles \<Rightarrow> (generatedFiles, log')))"

definition init_generated :: "ImageFormat list \<Rightarrow> (string \<rightharpoonup> string list)" where
  "init_generated fs = fold (\<lambda>format generatedFiles. generatedFiles(ftype format \<mapsto> [])) fs Map.empty"

definition generate_variants ::
  "services \<Rightarrow> ImageProcessingConfig \<Rightarrow> string \<Rightarrow> bytes
     \<Rightarrow> (string \<rightharpoonup> string list) \<times> call list \<Rightarrow> (string \<rightharpoonup> string list) \<times> call list" where
  "generate_variants env config originalFilename buffer st =
     fold (\<lambda>size'.
        fold (\<lambda>format.
           fold (\<lambda>dprRatio. process_tuple env originalFilename buffer size' format dprRatio)
             (ratios (dpr config)))
          (formats config))
       (sizes config) st"

text \<open>The outer \<^verbatim>\<open>try\<close> block. After \<^verbatim>\<open>validateFile\<close> has returned, the buffer is present.\<close>

definition processImage_try ::
  "services \<Rightarrow> ImageProcessingConfig \<Rightarrow> bytes option \<Rightarrow> string \<Rightarrow> string option \<Rightarrow> int option
     \<Rightarrow> call list \<Rightarrow> (js_error + ImageProcessingResult) \<times> call list" where
  "processImage_try env config buffer_arg originalFilename mimeType maxSizeInBytes log =
     (case validateFile buffer_arg originalFilename mimeType maxSizeInBytes of
        Inl error \<Rightarrow> (Inl error, log)
      | Inr _ \<Rightarrow>
          (let buffer = (case buffer_arg of None \<Rightarrow> [] | Some b \<Rightarrow> b);
               log1 = log @ [ValidateImage buffer]
           in case ip_validateImage env log buffer of
                Inl error \<Rightarrow> (Inl error, log1)
              | Inr isValidImage \<Rightarrow>
                  if \<not> isValidImage
                  then (Inl (new_ImageProcessingFailedError ''Invalid image file'' None), log1)
                  else
                    (let originalPath =
                           generateOriginalPath (uuidv4 env log1) originalFilename None
                     in case uploadFile env originalPath buffer log1 of
                          (Inl error, log2) \<Rightarrow> (Inl error, log2)
                        | (Inr _, log2) \<Rightarrow>
                            (let st = generate_variants env config originalFilename buffer
                                        (init_generated (formats config), log2)
                             in (Inr \<lparr>original = originalPath, generated = fst st\<rparr>, snd st)))))"

text \<open>The outer \<^verbatim>\<open>catch\<close>: a StorageError or an ImageProcessingFailedError is thrown again as
  it is, anything else is wrapped.\<close>

definition pipeline_catch :: "js_error \<Rightarrow> js_error" where
  "pipeline_catch error =
     (if instanceof error StorageError \<or> instanceof error ImageProcessingFailedError
      then error
      else new_ImageProcessingFailedError
             (''Pipeline processing failed: '' @ message error) (Some error))"

definition processImage ::
  "services \<Rightarrow> ImageProcessingConfig \<Rightarrow> bytes option \<Rightarrow> string \<Rightarrow> string option \<Rightarrow> int option
     \<Rightarrow> call list \<Rightarrow> (js_error + ImageProcessingResult) \<times> call list" where
  "processImage env config buffer originalFilename mimeType maxSizeInBytes log =
     (case processImage_try env config buffer originalFilename mimeType maxSizeInBytes log of
        (Inl error, log') \<Rightarrow> (Inl (pipeline_catch error), log')
      | (Inr result, log') \<Rightarrow> (Inr result, log'))"

section \<open>The doubles of the test suite (services/image-pipeline.service.spec.ts)\<close>

text \<open>\<^verbatim>\<open>MockStorageDriver.upload\<close> stores the data and returns the path it was given; the mocked
  image processor accepts every buffer and returns the bytes of \<^verbatim>\<open>'processed'\<close>. The
  random token is fixed to \<^verbatim>\<open>0\<close>.\<close>

definition mock_processed :: bytes where
  "mock_processed = [112, 114, 111, 99, 101, 115, 115, 101, 100]"

definition mock_services :: services where
  "mock_services =
     \<lparr>ip_validateImage = (\<lambda>log buffer. Inr True),
      ip_processImage = (\<lambda>log buffer size' format.
         Inr (ProcessedImage mock_processed (ftype format) (width size')
                (case height size' of None \<Rightarrow> 0 | Some h \<Rightarrow> h))),
      sd_upload = (\<lambda>log path data. Inr path),
      uuidv4 = (\<lambda>log. ''0'')\<rparr>"

definition default_config :: ImageProcessingConfig where
  "default_config =
     \<lparr>sizes = [\<lparr>width = 320, height = None\<rparr>, \<lparr>width = 640, height = None\<rparr>,
               \<lparr>width = 1024, height = None\<rparr>],
      formats = [\<lparr>ftype = ''webp'', quality = Some 80\<rparr>, \<lparr>ftype = ''avif'', quality = Some 80\<rparr>],
      dpr = \<lparr>ratios = [1, 2, 3]\<rparr>\<rparr>"

section \<open>The configuration object (config/image-processing.config.ts)\<close>

text \<open>
  The claims about the copies made by the configuration object depend on which arrays are
  shared, so arrays and the size objects they hold live in an explicit store. An array is a
  list of references to size objects; an address is an index into the store, and a new
  array takes the next free index. The object itself is passed and returned: its private
  field \<^verbatim>\<open>_sizes\<close> holds the address of an array.
\<close>

type_synonym addr = nat

record store =
  size_objects :: "ImageSize list"
  arrays :: "addr list list"

record config_object =
  sizes_field :: addr

definition object_at :: "store \<Rightarrow> addr \<Rightarrow> ImageSize option" where
  "object_at h a = (if a < length (size_objects h) then Some (size_objects h ! a) else None)"

definition array_at :: "store \<Rightarrow> addr \<Rightarrow> addr list option" where
  "array_at h a = (if a < length (arrays h) then Some (arrays h ! a) else None)"

definition new_array :: "store \<Rightarrow> addr list \<Rightarrow> addr \<times> store" where
  "new_array h xs = (length (arrays h), h\<lparr>arrays := arrays h @ [xs]\<rparr>)"

text \<open>The spread \<^verbatim>\<open>[...a]\<close>: a new array with the elements of \<open>a\<close>, the same references in
  the same order; spreading what is not an array throws.\<close>

definition spread :: "store \<Rightarrow> addr \<Rightarrow> (js_error + addr) \<times> store" where
  "spread h a =
     (case array_at h a of
        None \<Rightarrow> (Inl (new_TypeError ''object is not iterable''), h)
      | Some xs \<Rightarrow> (Inr (fst (new_array h xs)), snd (new_array h xs)))"

text \<open>\<^verbatim>\<open>get sizes() { return [...this._sizes]; }\<close>\<close>

definition get_sizes :: "store \<Rightarrow> config_object \<Rightarrow> (js_error + addr) \<times> store" where
  "get_sizes h this = spread h (sizes_field this)"

text \<open>\<^verbatim>\<open>setSizes(sizes) { this._sizes = [...sizes]; return this; }\<close>\<close>

definition setSizes :: "store \<Rightarrow> config_object \<Rightarrow> addr \<Rightarrow> (js_error + config_object) \<times> store" where
  "setSizes h this sizes_arg =
     (case spread h sizes_arg of
        (Inl error, h') \<Rightarrow> (Inl error, h')
      | (Inr copy, h') \<Rightarrow> (Inr (this\<lparr>sizes_field := copy\<rparr>), h'))"

text \<open>\<^verbatim>\<open>addSize(size) { this._sizes.push(size); return this; }\<close> changes the array in place.\<close>

definition addSize :: "store \<Rightarrow> config_object \<Rightarrow> addr \<Rightarrow> (js_error + config_object) \<times> store" where
  "addSize h this size_ref =
     (case array_at h (sizes_field this) of
        None \<Rightarrow> (Inl (new_TypeError ''this._sizes.push is not a function''), h)
      | Some xs \<Rightarrow> (Inr this, h\<lparr>arrays := (arrays h)[sizes_field this := xs @ [size_ref]]\<rparr>))"

text \<open>What a caller can do to an array it holds: replace its contents in place by any other
  (push, pop, splice, assignment to an index or to the length); and what it can do to a
  size object it holds: assign its fields.\<close>

definition mutate_array :: "store \<Rightarrow> addr \<Rightarrow> addr list \<Rightarrow> store" where
  "mutate_array h a ys = h\<lparr>arrays := (arrays h)[a := ys]\<rparr>"

definition mutate_object :: "store \<Rightarrow> addr \<Rightarrow> ImageSize \<Rightarrow> store" where
  "mutate_object h a v = h\<lparr>size_objects := (size_objects h)[a := v]\<rparr>"

text \<open>The value a caller obtains by reading \<^verbatim>\<open>config.sizes\<close>: the sizes held by the array
  that the getter returns.\<close>

definition read_sizes :: "store \<Rightarrow> config_object \<Rightarrow> ImageSize option list option" where
  "read_sizes h this =
     (case get_sizes h this of
        (Inl error, h') \<Rightarrow> None
      | (Inr r, h') \<Rightarrow> map_option (map (object_at h')) (array_at h' r))"

definition example_store :: store where
  "example_store =
     \<lparr>size_objects = [\<lparr>width = 320, height = None\<rparr>, \<lparr>width = 100, height = None\<rparr>,
                      \<lparr>width = 200, height = None\<rparr>],
      arrays = [[0], [0, 2], [2]]\<rparr>"

definition example_object :: config_object where
  "example_object = \<lparr>sizes_field = 0\<rparr>"

section \<open>Notions used to state the properties\<close>

text \<open>The outcome of running a sequence of checks in order, each one throwing or returning:
  the error of the first check that throws.\<close>

fun first_failure :: "(js_error + unit) list \<Rightarrow> js_error + unit" where
  "first_failure [] = Inr ()"
| "first_failure (Inl e # rs) = Inl e"
| "first_failure (Inr u # rs) = first_failure rs"

text \<open>The class of the error a call rejects with, if it rejects.\<close>

definition rejection_class :: "(js_error + 'a) \<times> call list \<Rightarrow> error_class option" where
  "rejection_class r = (case fst r of Inl e \<Rightarrow> Some (cls e) | Inr v \<Rightarrow> None)"

text \<open>Doubles that make a collaborator fail: a storage driver whose upload always rejects,
  as in the test of storage errors; and collaborators of which the image processor rejects
  exactly the request for the effective width 1280 in the format avif and the storage
  driver rejects exactly the upload under the name \<^verbatim>\<open>pic_320w@3x.webp\<close>.\<close>

definition failing_storage_services :: services where
  "failing_storage_services =
     mock_services\<lparr>sd_upload := (\<lambda>log path data. Inl (new_Error ''Storage failed''))\<rparr>"

definition failing_variant_services :: services where
  "failing_variant_services =
     mock_services
       \<lparr>ip_processImage := (\<lambda>log buffer size' format.
          if width size' = 1280 \<and> ftype format = ''avif''
          then Inl (new_Error ''Processing failed'')
          else ip_processImage mock_services log buffer size' format),
        sd_upload := (\<lambda>log path data.
          if path = ''pic_320w@3x.webp''
          then Inl (new_Error ''Storage failed'')
          else Inr path)\<rparr>"

text \<open>The combinations of the configuration in the order of the three nested loops: sizes
  outermost, formats in the middle, DPR ratios innermost.\<close>

definition tuples :: "ImageProcessingConfig \<Rightarrow> (ImageSize \<times> ImageFormat \<times> int) list" where
  "tuples config =
     concat (map (\<lambda>s. concat (map (\<lambda>f. map (\<lambda>d. (s, f, d)) (ratios (dpr config)))
                                 (formats config)))
               (sizes config))"

text \<open>What the body of the pipeline's innermost loop yields for each combination of a list
  when it is run on them one after the other from a given history. The proofs go through
  this trace of the code; the properties are stated with the outcomes defined after it,
  which ask the collaborators themselves.\<close>

fun attempts ::
  "services \<Rightarrow> string \<Rightarrow> bytes \<Rightarrow> call list \<Rightarrow> (ImageSize \<times> ImageFormat \<times> int) list
     \<Rightarrow> ((ImageSize \<times> ImageFormat \<times> int) \<times> (js_error + string)) list" where
  "attempts env fn b log [] = []"
| "attempts env fn b log ((s, f, d) # ts) =
     ((s, f, d), fst (produce_variant env fn b s f d log))
       # attempts env fn b (snd (produce_variant env fn b s f d log)) ts"

text \<open>The paths that this trace yields for one format type, in its order.\<close>

definition stored_paths ::
  "string \<Rightarrow> ((ImageSize \<times> ImageFormat \<times> int) \<times> (js_error + string)) list \<Rightarrow> string list" where
  "stored_paths t as =
     concat (map (\<lambda>((s, f, d), r).
        case r of Inl e \<Rightarrow> [] | Inr p \<Rightarrow> if ftype f = t then [p] else []) as)"

text \<open>
  The outcome of one combination, read off the two collaborators: the image processor is
  asked, at the history reached, for the effective size in the format; when it returns an
  image, the storage driver is asked, at the history extended by that request, to store
  the image's bytes under the variant's name. The combination succeeds, with the path the
  driver returned, when both answer; it fails when either rejects.
\<close>

definition variant_result ::
  "services \<Rightarrow> string \<Rightarrow> bytes \<Rightarrow> call list \<Rightarrow> ImageSize \<Rightarrow> ImageFormat \<Rightarrow> int \<Rightarrow> string option" where
  "variant_result env fn b log s f d =
     (case ip_processImage env log b (actualSize s d) f of
        Inl e \<Rightarrow> None
      | Inr img \<Rightarrow>
          (case sd_upload env (log @ [Transform b (actualSize s d) f])
                  (spec_variant_name fn (width s) (ftype f) d) (p_buffer img) of
             Inl e \<Rightarrow> None
           | Inr p \<Rightarrow> Some p))"

text \<open>The calls a combination adds to the history: the request for the transform, and the
  upload when the transform returned an image.\<close>

definition variant_calls ::
  "services \<Rightarrow> string \<Rightarrow> bytes \<Rightarrow> call list \<Rightarrow> ImageSize \<Rightarrow> ImageFormat \<Rightarrow> int \<Rightarrow> call list" where
  "variant_calls env fn b log s f d =
     Transform b (actualSize s d) f #
       (case ip_processImage env log b (actualSize s d) f of
          Inl e \<Rightarrow> []
        | Inr img \<Rightarrow> [Upload (spec_variant_name fn (width s) (ftype f) d) (p_buffer img)])"

text \<open>The outcomes of a list of combinations taken in order, each at the history that the
  combinations before it have left.\<close>

fun outcomes ::
  "services \<Rightarrow> string \<Rightarrow> bytes \<Rightarrow> call list \<Rightarrow> (ImageSize \<times> ImageFormat \<times> int) list
     \<Rightarrow> ((ImageSize \<times> ImageFormat \<times> int) \<times> string option) list" where
  "outcomes env fn b log [] = []"
| "outcomes env fn b log ((s, f, d) # ts) =
     ((s, f, d), variant_result env fn b log s f d)
       # outcomes env fn b (log @ variant_calls env fn b log s f d) ts"

text \<open>The paths of the combinations of one format type that succeeded, in their order.\<close>

definition successful_paths ::
  "string \<Rightarrow> ((ImageSize \<times> ImageFormat \<times> int) \<times> string option) list \<Rightarrow> string list" where
  "successful_paths t os =
     concat (map (\<lambda>((s, f, d), r).
        case r of None \<Rightarrow> [] | Some p \<Rightarrow> if ftype f = t then [p] else []) os)"



text \<open>The list generated for a format type by a call, when the call resolves.\<close>

definition generated_of ::
  "(js_error + ImageProcessingResult) \<times> call list \<Rightarrow> string \<Rightarrow> string list option" where
  "generated_of r t = (case fst r of Inl e \<Rightarrow> None | Inr res \<Rightarrow> generated res t)"

text \<open>The configuration of the specification's examples, and one with two formats of the
  same type, as \<^verbatim>\<open>addFormat\<close> builds it.\<close>

definition example_config :: ImageProcessingConfig where
  "example_config =
     \<lparr>sizes = [\<lparr>width = 320, height = None\<rparr>, \<lparr>width = 640, height = None\<rparr>],
      formats = [\<lparr>ftype = ''webp'', quality = Some 80\<rparr>, \<lparr>ftype = ''avif'', quality = Some 80\<rparr>],
      dpr = \<lparr>ratios = [1, 2, 3]\<rparr>\<rparr>"



definition no_sizes_config :: ImageProcessingConfig where
  "no_sizes_config =
     \<lparr>sizes = [],
      formats = [\<lparr>ftype = ''webp'', quality = Some 80\<rparr>, \<lparr>ftype = ''avif'', quality = Some 80\<rparr>],
      dpr = \<lparr>ratios = [1, 2, 3]\<rparr>\<rparr>"

section \<open>Properties\<close>

subsection \<open>Naming\<close>

lemma lastIndexOf_from_eq:
  "lastIndexOf_from c xs i found =
     (if c \<in> set xs
      then i + int (length xs) - 1 - int (length (takeWhile (\<lambda>x. x \<noteq> c) (rev xs)))
      else found)"
proof (induction xs arbitrary: i found)
  case Nil
  then show ?case by simp
next
  case (Cons x xs)
  show ?case
  proof (cases "c \<in> set xs")
    case True
    then show ?thesis using Cons.IH by (simp add: takeWhile_append1)
  next
    case False
    then have all: "\<forall>y\<in>set (rev xs). y \<noteq> c"
      by auto
    then have "takeWhile (\<lambda>y. y \<noteq> c) (rev xs @ [x]) = rev xs @ takeWhile (\<lambda>y. y \<noteq> c) [x]"
      by (intro takeWhile_append2) simp
    with False show ?thesis using Cons.IH by auto
  qed
qed

lemma takeWhile_length_less:
  "x \<in> set xs \<Longrightarrow> \<not> P x \<Longrightarrow> length (takeWhile P xs) < length xs"
  by (induction xs) auto

lemma getBaseName_spec: "getBaseName name = spec_basename name"
proof (cases "CHR ''.'' \<in> set name")
  case False
  then show ?thesis
    by (simp add: getBaseName_def spec_basename_def lastIndexOf_def lastIndexOf_from_eq)
next
  case True
  define k where "k = length (takeWhile (\<lambda>x. x \<noteq> CHR ''.'') (rev name))"
  have kl: "k < length name"
    using True takeWhile_length_less [of "CHR ''.''" "rev name" "\<lambda>x. x \<noteq> CHR ''.''"]
    unfolding k_def by simp
  have idx: "lastIndexOf name CHR ''.'' = int (length name) - 1 - int k"
    using True by (simp add: lastIndexOf_def lastIndexOf_from_eq k_def)
  have "dropWhile (\<lambda>x. x \<noteq> CHR ''.'') (rev name) = drop k (rev name)"
    unfolding k_def by (simp add: dropWhile_eq_drop)
  then have "spec_basename name = rev (drop (Suc k) (rev name))"
    using True by (simp add: spec_basename_def drop_Suc tl_drop)
  also have "\<dots> = take (length name - Suc k) name"
    by (simp add: rev_drop)
  finally have s: "spec_basename name = take (length name - Suc k) name" .
  have n: "nat (int (length name) - 1 - int k) = length name - Suc k"
    using kl by linarith
  have "getBaseName name = take (length name - Suc k) name"
    using kl idx n
    by (simp add: getBaseName_def substring_def clamp_index_def Let_def max_def min_def)
  with s show ?thesis by simp
qed

lemma spec_basename_no_dot: "CHR ''.'' \<notin> set name \<Longrightarrow> spec_basename name = name"
  by (simp add: spec_basename_def)

lemma spec_basename_dot:
  assumes "CHR ''.'' \<notin> set ext"
  shows "spec_basename (base @ CHR ''.'' # ext) = base"
proof -
  have "\<forall>y\<in>set (rev ext). y \<noteq> CHR ''.''"
    using assms by auto
  then have "dropWhile (\<lambda>c. c \<noteq> CHR ''.'') (rev ext @ CHR ''.'' # rev base) = CHR ''.'' # rev base"
    by (simp add: dropWhile_append3)
  then show ?thesis
    by (simp add: spec_basename_def)
qed

lemma generateFileName_spec:
  "generateFileName fn w t (Some d) = spec_variant_name fn w t d"
  by (simp add: generateFileName_def spec_variant_name_def getBaseName_spec)

text \<open>
  Claim C7. For every original name, width, format type and DPR ratio, the variant name is
  the base name, an underscore, the width, \<^verbatim>\<open>w@\<close>, the DPR ratio, \<^verbatim>\<open>x.\<close> and the format
  type; the base name is the original name without the suffix that starts at its last dot,
  and the whole original name when it has no dot; an omitted DPR ratio is 1.
\<close>

theorem generateFileName_format:
  "generateFileName originalName w formatType dprRatio =
     spec_variant_name originalName w formatType (case dprRatio of None \<Rightarrow> 1 | Some d \<Rightarrow> d)
   \<and> (CHR ''.'' \<notin> set ext \<longrightarrow>
        generateFileName (base @ CHR ''.'' # ext) w formatType dprRatio =
          base @ ''_'' @ numberToString w @ ''w@''
            @ numberToString (case dprRatio of None \<Rightarrow> 1 | Some d \<Rightarrow> d) @ ''x.'' @ formatType)
   \<and> (CHR ''.'' \<notin> set originalName \<longrightarrow>
        generateFileName originalName w formatType dprRatio =
          originalName @ ''_'' @ numberToString w @ ''w@''
            @ numberToString (case dprRatio of None \<Rightarrow> 1 | Some d \<Rightarrow> d) @ ''x.'' @ formatType)"
  by (simp add: generateFileName_def spec_variant_name_def getBaseName_spec
      spec_basename_no_dot spec_basename_dot)

lemma numberToString_small:
  "numberToString 1 = ''1''" "numberToString 2 = ''2''" "numberToString 3 = ''3''"
  "numberToString 320 = ''320''" "numberToString 640 = ''640''"
  by (simp_all add: numberToString_def digits.simps digit_char_def)

theorem generateFileName_format_witness:
  "CHR ''.'' \<notin> set ''jpg'' \<and> CHR ''.'' \<notin> set ''pic''
   \<and> generateFileName ''pic.jpg'' 320 ''webp'' (Some 2) = ''pic_320w@2x.webp''
   \<and> generateFileName ''pic.jpg'' 320 ''webp'' None = ''pic_320w@1x.webp''
   \<and> generateFileName ''pic'' 320 ''webp'' None = ''pic_320w@1x.webp''"
proof -
  have a: "CHR ''.'' \<notin> set ''jpg''" and b: "CHR ''.'' \<notin> set ''pic''"
    by simp_all
  note t1 = generateFileName_format [of "''pic.jpg''" 320 "''webp''" "Some 2" "''jpg''" "''pic''"]
  note t2 = generateFileName_format [of "''pic.jpg''" 320 "''webp''" None "''jpg''" "''pic''"]
  note t3 = generateFileName_format [of "''pic''" 320 "''webp''" None "''jpg''" "''pic''"]
  show ?thesis
    using a b conjunct1 [OF conjunct2 [OF t1]] conjunct1 [OF conjunct2 [OF t2]]
      conjunct2 [OF conjunct2 [OF t3]]
    by (simp add: numberToString_small)
qed

subsection \<open>Validation\<close>

lemma validateExtension_class:
  "validateExtension filename = Inl e \<Longrightarrow> cls e = UnsupportedImageFormatError"
  by (auto simp: validateExtension_def new_UnsupportedImageFormatError_def Let_def
      split: if_splits)

lemma validateMimeType_class:
  "validateMimeType m = Inl e \<Longrightarrow> cls e = UnsupportedImageFormatError"
  by (auto simp: validateMimeType_def new_UnsupportedImageFormatError_def split: if_splits)

lemma validateFileSize_error:
  "validateFileSize buf n = Inl e \<Longrightarrow>
     cls e = ImageValidationError \<and> e \<noteq> new_ImageValidationError ''File buffer is empty''"
  by (auto simp: validateFileSize_def new_ImageValidationError_def Let_def split: if_splits)

lemma first_failure_single: "first_failure [r] = r"
  by (cases r) auto

lemma validateFile_nonempty:
  assumes "buf \<noteq> []"
  shows "validateFile (Some buf) filename mimeType maxSizeInBytes =
     first_failure ([validateExtension filename]
       @ (case mimeType of None \<Rightarrow> [] | Some m \<Rightarrow> if m = [] then [] else [validateMimeType m])
       @ (case maxSizeInBytes of
            None \<Rightarrow> []
          | Some n \<Rightarrow> if n = 0 then [] else [validateFileSize buf (Some n)]))"
  using assms
  by (cases "validateExtension filename"; cases mimeType; cases maxSizeInBytes)
     (auto simp: validateFile_def truthy_number_def first_failure_single split: sum.splits)

lemma validateFile_empty:
  "buffer = None \<or> buffer = Some [] \<Longrightarrow>
     validateFile buffer filename mimeType maxSizeInBytes =
       Inl (new_ImageValidationError ''File buffer is empty'')"
  by (auto simp: validateFile_def)

lemma validateFile_error_class:
  "validateFile buffer filename mimeType maxSizeInBytes = Inl e \<Longrightarrow>
     cls e = ImageValidationError \<or> cls e = UnsupportedImageFormatError"
  by (auto simp: validateFile_def new_ImageValidationError_def truthy_number_def
      split: option.splits if_splits sum.splits
      dest: validateExtension_class validateMimeType_class validateFileSize_error)

lemma validateFile_nonempty_not_empty_error:
  assumes "buf \<noteq> []"
  shows "validateFile (Some buf) filename mimeType maxSizeInBytes \<noteq>
           Inl (new_ImageValidationError ''File buffer is empty'')"
proof
  assume h: "validateFile (Some buf) filename mimeType maxSizeInBytes =
           Inl (new_ImageValidationError ''File buffer is empty'')"
  have c: "cls (new_ImageValidationError ''File buffer is empty'') = ImageValidationError"
    by (simp add: new_ImageValidationError_def)
  from h assms show False
    using c
    by (auto simp: validateFile_def truthy_number_def
        split: option.splits if_splits sum.splits
        dest: validateExtension_class validateMimeType_class validateFileSize_error)
qed

text \<open>
  Claim C8, as amended. The composite check throws the ValidationFailed error of its
  empty-buffer guard, with the message \<^verbatim>\<open>File buffer is empty\<close>, exactly when the buffer
  is absent or empty. Otherwise it runs the extension check, then the MIME-type check
  exactly when a non-empty MIME type is supplied, then the size check exactly when a
  non-zero maximum is supplied, and its outcome is the error of the first of these checks
  that throws, unchanged, or success when none does; the error of the size check is a
  ValidationFailed error too.
\<close>

theorem validateFile_checks:
  "(validateFile buffer filename mimeType maxSizeInBytes =
      Inl (new_ImageValidationError ''File buffer is empty'')
    \<longleftrightarrow> buffer = None \<or> buffer = Some [])
   \<and> (buffer = Some buf \<and> buf \<noteq> [] \<longrightarrow>
        validateFile buffer filename mimeType maxSizeInBytes =
          first_failure ([validateExtension filename]
            @ (case mimeType of
                 None \<Rightarrow> []
               | Some m \<Rightarrow> if m = [] then [] else [validateMimeType m])
            @ (case maxSizeInBytes of
                 None \<Rightarrow> []
               | Some n \<Rightarrow> if n = 0 then [] else [validateFileSize buf (Some n)])))"
proof (intro conjI impI iffI)
  assume "validateFile buffer filename mimeType maxSizeInBytes =
      Inl (new_ImageValidationError ''File buffer is empty'')"
  then show "buffer = None \<or> buffer = Some []"
    using validateFile_nonempty_not_empty_error [of _ filename mimeType maxSizeInBytes]
    by (cases buffer) auto
next
  assume "buffer = None \<or> buffer = Some []"
  then show "validateFile buffer filename mimeType maxSizeInBytes =
      Inl (new_ImageValidationError ''File buffer is empty'')"
    by (rule validateFile_empty)
next
  assume "buffer = Some buf \<and> buf \<noteq> []"
  then show "validateFile buffer filename mimeType maxSizeInBytes =
          first_failure ([validateExtension filename]
            @ (case mimeType of
                 None \<Rightarrow> []
               | Some m \<Rightarrow> if m = [] then [] else [validateMimeType m])
            @ (case maxSizeInBytes of
                 None \<Rightarrow> []
               | Some n \<Rightarrow> if n = 0 then [] else [validateFileSize buf (Some n)]))"
    using validateFile_nonempty [of buf filename mimeType maxSizeInBytes] by simp
qed

lemma lower_char_simps:
  "lower_char CHR ''.'' = CHR ''.''" "lower_char CHR ''j'' = CHR ''j''"
  "lower_char CHR ''p'' = CHR ''p''" "lower_char CHR ''g'' = CHR ''g''"
  "lower_char CHR ''J'' = CHR ''j''" "lower_char CHR ''P'' = CHR ''p''"
  "lower_char CHR ''G'' = CHR ''g''" "lower_char CHR ''x'' = CHR ''x''"
  "lower_char CHR ''d'' = CHR ''d''" "lower_char CHR ''f'' = CHR ''f''"
  by (simp_all add: lower_char_def)

lemma validateExtension_examples:
  "validateExtension ''x.jpg'' = Inr ()"
  "validateExtension ''pic.jpg'' = Inr ()"
  "validateExtension ''photo.JPG'' = Inr ()"
  "validateExtension ''x.pdf'' = Inl (new_UnsupportedImageFormatError ''.pdf'')"
  by (simp_all add: validateExtension_def getFileExtension_def lastIndexOf_def
      substring_from_def clamp_index_def toLowerCase_def lower_char_simps
      SUPPORTED_EXTENSIONS_def)

theorem validateFile_checks_witness:
  "(Some [1, 2 :: 8 word] = Some [1, 2] \<and> [1, 2 :: 8 word] \<noteq> [])
   \<and> validateFile (Some [1, 2]) ''x.pdf'' (Some ''text/plain'') (Some 1) =
       Inl (new_UnsupportedImageFormatError ''.pdf'')
   \<and> validateFile None ''x.pdf'' (Some ''text/plain'') (Some 1) =
       Inl (new_ImageValidationError ''File buffer is empty'')"
proof -
  have h: "Some [1, 2 :: 8 word] = Some [1, 2] \<and> [1, 2 :: 8 word] \<noteq> []"
    by simp
  note t = validateFile_checks [of "Some [1, 2]" "''x.pdf''" "Some ''text/plain''" "Some 1" "[1, 2]"]
  note n = validateFile_checks [of None "''x.pdf''" "Some ''text/plain''" "Some 1" "[]"]
  have "validateFile (Some [1, 2]) ''x.pdf'' (Some ''text/plain'') (Some 1) =
       Inl (new_UnsupportedImageFormatError ''.pdf'')"
    using conjunct2 [OF t] h by (simp add: validateExtension_examples)
  moreover have "validateFile None ''x.pdf'' (Some ''text/plain'') (Some 1) =
       Inl (new_ImageValidationError ''File buffer is empty'')"
    using conjunct1 [OF n] by simp
  ultimately show ?thesis by simp
qed

text \<open>
  Claim C8 as stated fails. A buffer of three bytes with a maximum of two is not empty and
  the check fails with a ValidationFailed error all the same, the one of the size check.
  And an argument that is supplied does not always have its check run: with the empty
  string as MIME type and zero as maximum, both of which their checks reject, the
  composite check passes.
\<close>

theorem validateFile_checks_counterexample:
  "validateFile (Some [1, 2, 3]) ''x.jpg'' None (Some 2) =
     Inl (JsError ImageValidationError ''File size exceeds maximum allowed size of 2 bytes''
            (Some ''VALIDATION_ERROR'') None)
   \<and> Some [1, 2, 3 :: 8 word] \<noteq> None \<and> Some [1, 2, 3 :: 8 word] \<noteq> Some []
   \<and> validateMimeType [] = Inl (new_UnsupportedImageFormatError [])
   \<and> validateFileSize [1, 2, 3] (Some 0) =
       Inl (JsError ImageValidationError ''File size exceeds maximum allowed size of 0 bytes''
              (Some ''VALIDATION_ERROR'') None)
   \<and> validateFile (Some [1, 2, 3]) ''x.jpg'' (Some []) (Some 0) = Inr ()"
proof -
  have z: "numberToString 0 = ''0''"
    by (simp add: numberToString_def digits.simps digit_char_def)
  show ?thesis
    by (simp add: validateFile_def validateExtension_examples truthy_number_def
        validateFileSize_def validateMimeType_def toLowerCase_def SUPPORTED_MIME_TYPES_def
        new_ImageValidationError_def numberToString_small z)
qed

subsection \<open>Rejections of the pipeline\<close>

lemma instanceof_StorageError: "instanceof e StorageError \<longleftrightarrow> cls e = StorageError"
  by (cases "cls e") (auto simp: instanceof_def)

lemma instanceof_ImageProcessingFailedError:
  "instanceof e ImageProcessingFailedError \<longleftrightarrow> cls e = ImageProcessingFailedError"
  by (cases "cls e") (auto simp: instanceof_def)

lemma pipeline_catch_eq:
  "pipeline_catch e =
     (if cls e = StorageError \<or> cls e = ImageProcessingFailedError then e
      else JsError ImageProcessingFailedError (''Pipeline processing failed: '' @ message e)
             (Some ''PROCESSING_FAILED'') (Some e))"
  by (simp add: pipeline_catch_def instanceof_StorageError
      instanceof_ImageProcessingFailedError new_ImageProcessingFailedError_def)

lemma pipeline_catch_class:
  "cls (pipeline_catch e) = StorageError \<or> cls (pipeline_catch e) = ImageProcessingFailedError"
  by (simp add: pipeline_catch_eq)

lemma processImage_Inl:
  "processImage env config buffer fn mimeType maxSize log = (Inl e, log') \<longleftrightarrow>
     (\<exists>e0. processImage_try env config buffer fn mimeType maxSize log = (Inl e0, log')
        \<and> e = pipeline_catch e0)"
  by (auto simp: processImage_def split: prod.splits sum.splits)

lemma processImage_try_invalid:
  "validateFile buffer fn mimeType maxSize = Inl ev \<Longrightarrow>
     processImage_try env config buffer fn mimeType maxSize log = (Inl ev, log)"
  by (simp add: processImage_try_def)

lemma processImage_invalid:
  "validateFile buffer fn mimeType maxSize = Inl ev \<Longrightarrow>
     processImage env config buffer fn mimeType maxSize log = (Inl (pipeline_catch ev), log)"
  by (simp add: processImage_def processImage_try_invalid)

text \<open>
  Claim C1, as amended. For every file name, MIME type and maximum size, a call with an
  absent or empty buffer rejects without any call to the image processor or to the storage
  driver; the rejection is an ImageProcessingFailedError with the message
  \<^verbatim>\<open>Pipeline processing failed: File buffer is empty\<close> that wraps the validator's
  ImageValidationError as its original error.
\<close>

theorem processImage_empty_buffer:
  assumes "buffer = None \<or> buffer = Some []"
  shows "processImage env config buffer fn mimeType maxSize log =
     (Inl (JsError ImageProcessingFailedError
             ''Pipeline processing failed: File buffer is empty'' (Some ''PROCESSING_FAILED'')
             (Some (JsError ImageValidationError ''File buffer is empty''
                      (Some ''VALIDATION_ERROR'') None))),
      log)"
  using assms
  by (simp add: processImage_invalid [OF validateFile_empty] pipeline_catch_eq
      new_ImageValidationError_def)

theorem processImage_empty_buffer_witness:
  "(Some [] = (None :: bytes option) \<or> Some [] = Some ([] :: bytes))
   \<and> processImage mock_services default_config (Some []) ''x.jpg'' None None [] =
     (Inl (JsError ImageProcessingFailedError
             ''Pipeline processing failed: File buffer is empty'' (Some ''PROCESSING_FAILED'')
             (Some (JsError ImageValidationError ''File buffer is empty''
                      (Some ''VALIDATION_ERROR'') None))),
      [])"
proof -
  have h: "Some [] = (None :: bytes option) \<or> Some [] = Some ([] :: bytes)"
    by simp
  show ?thesis
    using h processImage_empty_buffer [OF h, of mock_services default_config "''x.jpg''" None None "[]"]
    by simp
qed

text \<open>
  Claim C1 as stated fails: the call with the empty buffer and the name \<^verbatim>\<open>x.jpg\<close> rejects
  with an error of class ImageProcessingFailedError, which is not an ImageValidationError.
\<close>

theorem processImage_empty_buffer_counterexample:
  "rejection_class (processImage mock_services default_config (Some []) ''x.jpg'' None None [])
     = Some ImageProcessingFailedError
   \<and> rejection_class (processImage mock_services default_config (Some []) ''x.jpg'' None None [])
     \<noteq> Some ImageValidationError"
  by (simp add: rejection_class_def processImage_def processImage_try_def validateFile_def
      pipeline_catch_def instanceof_def new_ImageValidationError_def
      new_ImageProcessingFailedError_def)

text \<open>
  Claim C10. Every rejection of the pipeline is an instance of exactly one of StorageError
  and ImageProcessingFailedError: the error thrown inside the outer try block is thrown
  again when it is of one of these two classes, and is otherwise wrapped into an
  ImageProcessingFailedError whose message starts with \<^verbatim>\<open>Pipeline processing failed: \<close> and
  whose original error it is. The validators' errors, ImageValidationError and
  UnsupportedImageFormatError, are wrapped so.
\<close>

theorem processImage_rejection:
  assumes "processImage env config buffer fn mimeType maxSize log = (Inl e, log')"
  shows "(instanceof e StorageError \<and> \<not> instanceof e ImageProcessingFailedError
          \<or> instanceof e ImageProcessingFailedError \<and> \<not> instanceof e StorageError)
     \<and> (\<exists>e0. processImage_try env config buffer fn mimeType maxSize log = (Inl e0, log')
          \<and> (if instanceof e0 StorageError \<or> instanceof e0 ImageProcessingFailedError
              then e = e0
              else e = JsError ImageProcessingFailedError
                         (''Pipeline processing failed: '' @ message e0)
                         (Some ''PROCESSING_FAILED'') (Some e0)))
     \<and> (\<forall>ev. validateFile buffer fn mimeType maxSize = Inl ev \<longrightarrow>
          (cls ev = ImageValidationError \<or> cls ev = UnsupportedImageFormatError)
          \<and> e = JsError ImageProcessingFailedError
                  (''Pipeline processing failed: '' @ message ev)
                  (Some ''PROCESSING_FAILED'') (Some ev))"
proof -
  from assms obtain e0 where
    t: "processImage_try env config buffer fn mimeType maxSize log = (Inl e0, log')"
    and e: "e = pipeline_catch e0"
    by (auto simp: processImage_Inl)
  have 1: "instanceof e StorageError \<and> \<not> instanceof e ImageProcessingFailedError
          \<or> instanceof e ImageProcessingFailedError \<and> \<not> instanceof e StorageError"
    using pipeline_catch_class [of e0] e
    by (auto simp: instanceof_StorageError instanceof_ImageProcessingFailedError)
  have 2: "if instanceof e0 StorageError \<or> instanceof e0 ImageProcessingFailedError
              then e = e0
              else e = JsError ImageProcessingFailedError
                         (''Pipeline processing failed: '' @ message e0)
                         (Some ''PROCESSING_FAILED'') (Some e0)"
    using e
    by (simp add: pipeline_catch_eq instanceof_StorageError instanceof_ImageProcessingFailedError)
  have 3: "(cls ev = ImageValidationError \<or> cls ev = UnsupportedImageFormatError)
          \<and> e = JsError ImageProcessingFailedError
                  (''Pipeline processing failed: '' @ message ev)
                  (Some ''PROCESSING_FAILED'') (Some ev)"
    if v: "validateFile buffer fn mimeType maxSize = Inl ev" for ev
  proof -
    have c: "cls ev = ImageValidationError \<or> cls ev = UnsupportedImageFormatError"
      using v by (rule validateFile_error_class)
    have "e0 = ev"
      using t processImage_try_invalid [OF v, of env config log] by simp
    with e c show ?thesis
      by (auto simp: pipeline_catch_eq)
  qed
  from 1 2 3 t show ?thesis by blast
qed

theorem processImage_rejection_witness:
  "processImage mock_services default_config (Some [1]) ''x.pdf'' None None [] =
     (Inl (JsError ImageProcessingFailedError
            ''Pipeline processing failed: Unsupported image format: .pdf''
            (Some ''PROCESSING_FAILED'') (Some (new_UnsupportedImageFormatError ''.pdf''))), [])
   \<and> validateFile (Some [1]) ''x.pdf'' None None = Inl (new_UnsupportedImageFormatError ''.pdf'')
   \<and> instanceof (JsError ImageProcessingFailedError
            ''Pipeline processing failed: Unsupported image format: .pdf''
            (Some ''PROCESSING_FAILED'') (Some (new_UnsupportedImageFormatError ''.pdf'')))
        ImageProcessingFailedError"
proof -
  have v: "validateFile (Some [1]) ''x.pdf'' None None =
             Inl (new_UnsupportedImageFormatError ''.pdf'')"
    by (simp add: validateFile_def validateExtension_examples)
  have h: "processImage mock_services default_config (Some [1]) ''x.pdf'' None None [] =
     (Inl (JsError ImageProcessingFailedError
            ''Pipeline processing failed: Unsupported image format: .pdf''
            (Some ''PROCESSING_FAILED'') (Some (new_UnsupportedImageFormatError ''.pdf''))), [])"
    by (simp add: processImage_invalid [OF v] pipeline_catch_eq
        new_UnsupportedImageFormatError_def)
  show ?thesis
    using processImage_rejection [OF h] v h
    by (auto simp: instanceof_StorageError)
qed

subsection \<open>The upload of the original\<close>

lemma uploadFile_Inl:
  "sd_upload env log filename buffer = Inl err \<Longrightarrow>
     uploadFile env filename buffer log =
       (Inl (JsError StorageError (''Failed to upload file '' @ filename @ '': '' @ message err)
               (Some ''STORAGE_ERROR'') (Some err)),
        log @ [Upload filename buffer])"
  by (simp add: uploadFile_def new_StorageError_def)

lemma uploadFile_Inr:
  "sd_upload env log filename buffer = Inr p \<Longrightarrow>
     uploadFile env filename buffer log = (Inr p, log @ [Upload filename buffer])"
  by (simp add: uploadFile_def)

lemma uploadFile_log: "snd (uploadFile env filename buffer log) = log @ [Upload filename buffer]"
  by (simp add: uploadFile_def split: sum.splits)

text \<open>
  Claim C3. When the storage driver rejects the upload of the original bytes, the call
  rejects with a StorageError that wraps the driver's error, and the rejected upload is the
  last call made: the history holds the decodability check that came before it and that
  one upload, so no transform is requested, no variant is uploaded and no result is built.
  The upload of the original is reached exactly when the input has passed validation and
  the decodability check.
\<close>

theorem original_upload_failure:
  assumes "validateFile (Some buffer) fn mimeType maxSize = Inr ()"
    and "ip_validateImage env log buffer = Inr True"
    and "originalPath = generateOriginalPath (uuidv4 env (log @ [ValidateImage buffer])) fn None"
    and "sd_upload env (log @ [ValidateImage buffer]) originalPath buffer = Inl err"
  shows "processImage env config (Some buffer) fn mimeType maxSize log =
     (Inl (JsError StorageError
             (''Failed to upload file '' @ originalPath @ '': '' @ message err)
             (Some ''STORAGE_ERROR'') (Some err)),
      log @ [ValidateImage buffer, Upload originalPath buffer])
    \<and> rejection_class (processImage env config (Some buffer) fn mimeType maxSize log)
        = Some StorageError
    \<and> (\<forall>b s f. Transform b s f \<notin> set [ValidateImage buffer, Upload originalPath buffer])"
proof -
  have "processImage_try env config (Some buffer) fn mimeType maxSize log =
     (Inl (JsError StorageError
             (''Failed to upload file '' @ originalPath @ '': '' @ message err)
             (Some ''STORAGE_ERROR'') (Some err)),
      log @ [ValidateImage buffer, Upload originalPath buffer])"
    using assms by (simp add: processImage_try_def Let_def uploadFile_Inl)
  then show ?thesis
    by (simp add: processImage_def pipeline_catch_eq rejection_class_def)
qed

lemma validateFile_pic: "validateFile (Some [1, 2]) ''pic.jpg'' None None = Inr ()"
  by (simp add: validateFile_def validateExtension_examples truthy_number_def)

theorem original_upload_failure_witness:
  "validateFile (Some [1, 2]) ''pic.jpg'' None None = Inr ()
   \<and> ip_validateImage failing_storage_services [] [1, 2] = Inr True
   \<and> sd_upload failing_storage_services [ValidateImage [1, 2]] ''/uploads/originals/0.jpg'' [1, 2]
       = Inl (new_Error ''Storage failed'')
   \<and> processImage failing_storage_services default_config (Some [1, 2]) ''pic.jpg'' None None [] =
     (Inl (JsError StorageError
             ''Failed to upload file /uploads/originals/0.jpg: Storage failed''
             (Some ''STORAGE_ERROR'') (Some (new_Error ''Storage failed''))),
      [ValidateImage [1, 2], Upload ''/uploads/originals/0.jpg'' [1, 2]])"
proof -
  have v: "ip_validateImage failing_storage_services [] [1, 2] = Inr True"
    by (simp add: failing_storage_services_def mock_services_def)
  have p: "''/uploads/originals/0.jpg'' =
     generateOriginalPath (uuidv4 failing_storage_services ([] @ [ValidateImage [1, 2]]))
       ''pic.jpg'' None"
    by (simp add: failing_storage_services_def mock_services_def generateOriginalPath_def
        generateOriginalFileName_def getFileExtension_def lastIndexOf_def substring_from_def
        clamp_index_def)
  have u: "sd_upload failing_storage_services ([] @ [ValidateImage [1, 2]])
             ''/uploads/originals/0.jpg'' [1, 2] = Inl (new_Error ''Storage failed'')"
    by (simp add: failing_storage_services_def mock_services_def)
  show ?thesis
    using original_upload_failure [OF validateFile_pic v p u, of default_config] v u
      validateFile_pic
    by (simp add: new_Error_def)
qed

subsection \<open>The loop over the combinations\<close>

lemma fold_concat_map_app: "fold f (concat (map g xs)) st = fold (\<lambda>x. fold f (g x)) xs st"
  by (induction xs arbitrary: st) auto

lemma fold_concat_map: "fold f (concat (map g xs)) = fold (\<lambda>x. fold f (g x)) xs"
  by (rule ext) (rule fold_concat_map_app)

lemma generate_variants_tuples:
  "generate_variants env config fn b st =
     fold (\<lambda>(s, f, d). process_tuple env fn b s f d) (tuples config) st"
  by (simp add: generate_variants_def tuples_def fold_concat_map fold_map comp_def)

lemma process_tuple_snd:
  "snd (process_tuple env fn b s f d (gen, log)) = snd (produce_variant env fn b s f d log)"
  by (simp add: process_tuple_def split: prod.splits sum.splits)

lemma process_tuple_fst_Inl:
  "fst (produce_variant env fn b s f d log) = Inl e \<Longrightarrow>
     fst (process_tuple env fn b s f d (gen, log)) = gen"
  by (auto simp: process_tuple_def split: prod.splits sum.splits)

lemma process_tuple_fst_Inr:
  "fst (produce_variant env fn b s f d log) = Inr p \<Longrightarrow> gen (ftype f) = Some ps \<Longrightarrow>
     fst (process_tuple env fn b s f d (gen, log)) = gen(ftype f \<mapsto> ps @ [p])"
  by (auto simp: process_tuple_def push_generated_def split: prod.splits sum.splits)

lemma fold_process_tuple_generated:
  assumes "\<forall>(s, f, d) \<in> set ts. ftype f \<in> dom gen"
  shows "fst (fold (\<lambda>(s, f, d). process_tuple env fn b s f d) ts (gen, log)) t =
           map_option (\<lambda>ps. ps @ stored_paths t (attempts env fn b log ts)) (gen t)"
  using assms
proof (induction ts arbitrary: gen log)
  case Nil
  then show ?case
    by (simp add: stored_paths_def option.map_ident)
next
  case (Cons x ts)
  obtain s f d where x: "x = (s, f, d)"
    by (cases x) auto
  define log' where "log' = snd (produce_variant env fn b s f d log)"
  define gen' where "gen' = fst (process_tuple env fn b s f d (gen, log))"
  have st: "process_tuple env fn b s f d (gen, log) = (gen', log')"
    by (simp add: gen'_def log'_def prod_eq_iff process_tuple_snd)
  from Cons.prems x obtain ps where ps: "gen (ftype f) = Some ps"
    by auto
  show ?case
  proof (cases "fst (produce_variant env fn b s f d log)")
    case (Inl e)
    then have g: "gen' = gen"
      by (simp add: gen'_def process_tuple_fst_Inl)
    have "fst (fold (\<lambda>(s, f, d). process_tuple env fn b s f d) ts (gen', log')) t =
           map_option (\<lambda>ps. ps @ stored_paths t (attempts env fn b log' ts)) (gen' t)"
      using Cons.prems g by (intro Cons.IH) auto
    then show ?thesis
      using Inl g by (simp add: x st stored_paths_def log'_def)
  next
    case (Inr p)
    then have g: "gen' = gen(ftype f \<mapsto> ps @ [p])"
      using ps by (simp add: gen'_def process_tuple_fst_Inr)
    have "fst (fold (\<lambda>(s, f, d). process_tuple env fn b s f d) ts (gen', log')) t =
           map_option (\<lambda>ps. ps @ stored_paths t (attempts env fn b log' ts)) (gen' t)"
      using Cons.prems g by (intro Cons.IH) auto
    then show ?thesis
      using Inr g ps by (cases "gen t") (auto simp: x st stored_paths_def log'_def)
  qed
qed

lemma init_generated_fold:
  "fold (\<lambda>format generatedFiles. generatedFiles(ftype format \<mapsto> [])) fs g t =
     (if t \<in> ftype ` set fs then Some [] else g t)"
  by (induction fs arbitrary: g) auto

lemma init_generated_eq:
  "init_generated fs t = (if t \<in> ftype ` set fs then Some [] else None)"
  by (simp add: init_generated_def init_generated_fold)

lemma tuples_formats: "(s, f, d) \<in> set (tuples config) \<Longrightarrow> f \<in> set (formats config)"
  by (auto simp: tuples_def)

lemma generate_variants_generated_at:
  "fst (generate_variants env config fn b (init_generated (formats config), log)) t =
     (if t \<in> ftype ` set (formats config)
      then Some (stored_paths t (attempts env fn b log (tuples config)))
      else None)"
proof -
  have "\<forall>(s, f, d) \<in> set (tuples config). ftype f \<in> dom (init_generated (formats config))"
    by (auto simp: init_generated_eq dom_def dest: tuples_formats)
  then show ?thesis
    by (simp add: generate_variants_tuples fold_process_tuple_generated init_generated_eq)
qed

lemma generate_variants_generated:
  "fst (generate_variants env config fn b (init_generated (formats config), log)) =
     (\<lambda>t. if t \<in> ftype ` set (formats config)
          then Some (stored_paths t (attempts env fn b log (tuples config)))
          else None)"
  by (rule ext) (rule generate_variants_generated_at)

lemma processImage_try_ok:
  assumes "validateFile (Some buffer) fn mimeType maxSize = Inr ()"
    and "ip_validateImage env log buffer = Inr True"
    and "originalPath = generateOriginalPath (uuidv4 env (log @ [ValidateImage buffer])) fn None"
    and "sd_upload env (log @ [ValidateImage buffer]) originalPath buffer = Inr p"
    and "log2 = log @ [ValidateImage buffer, Upload originalPath buffer]"
  shows "processImage_try env config (Some buffer) fn mimeType maxSize log =
     (Inr \<lparr>original = originalPath,
           generated = fst (generate_variants env config fn buffer
                              (init_generated (formats config), log2))\<rparr>,
      snd (generate_variants env config fn buffer (init_generated (formats config), log2)))"
  using assms by (simp add: processImage_try_def Let_def uploadFile_Inr)

lemma processImage_ok:
  assumes "validateFile (Some buffer) fn mimeType maxSize = Inr ()"
    and "ip_validateImage env log buffer = Inr True"
    and "originalPath = generateOriginalPath (uuidv4 env (log @ [ValidateImage buffer])) fn None"
    and "sd_upload env (log @ [ValidateImage buffer]) originalPath buffer = Inr p"
    and "log2 = log @ [ValidateImage buffer, Upload originalPath buffer]"
  shows "processImage env config (Some buffer) fn mimeType maxSize log =
     (Inr \<lparr>original = originalPath,
           generated = fst (generate_variants env config fn buffer
                              (init_generated (formats config), log2))\<rparr>,
      snd (generate_variants env config fn buffer (init_generated (formats config), log2)))"
  by (simp add: processImage_def processImage_try_ok [OF assms])

lemma produce_variant_result:
  "(case fst (produce_variant env fn b s f d log) of Inl e \<Rightarrow> None | Inr p \<Rightarrow> Some p) =
     variant_result env fn b log s f d"
  by (simp add: produce_variant_def uploadFile_def variant_result_def generateFileName_spec
      split: sum.splits)

lemma produce_variant_calls:
  "snd (produce_variant env fn b s f d log) = log @ variant_calls env fn b log s f d"
  by (simp add: produce_variant_def uploadFile_log variant_calls_def generateFileName_spec
      split: sum.splits)

lemma stored_paths_outcomes:
  "stored_paths t (attempts env fn b log ts) = successful_paths t (outcomes env fn b log ts)"
proof (induction ts arbitrary: log)
  case Nil
  show ?case by (simp add: stored_paths_def successful_paths_def)
next
  case (Cons x ts)
  obtain s f d where x: "x = (s, f, d)"
    by (cases x) auto
  have r: "(case fst (produce_variant env fn b s f d log) of
              Inl e \<Rightarrow> [] | Inr p \<Rightarrow> if ftype f = t then [p] else []) =
           (case variant_result env fn b log s f d of
              None \<Rightarrow> [] | Some p \<Rightarrow> if ftype f = t then [p] else [])"
    unfolding produce_variant_result [symmetric] by (simp split: sum.splits)
  have "stored_paths t (attempts env fn b (log @ variant_calls env fn b log s f d) ts) =
          successful_paths t (outcomes env fn b (log @ variant_calls env fn b log s f d) ts)"
    by (rule Cons.IH)
  then show ?case
    using r by (simp add: x stored_paths_def successful_paths_def produce_variant_calls)
qed

lemma outcomes_stateless:
  assumes "\<forall>l l' x s f. ip_processImage env l x s f = ip_processImage env l' x s f"
    and "\<forall>l l' n x. sd_upload env l n x = sd_upload env l' n x"
  shows "outcomes env fn b log ts = map (\<lambda>(s, f, d). ((s, f, d), variant_result env fn b [] s f d)) ts"
proof (induction ts arbitrary: log)
  case Nil
  show ?case by simp
next
  case (Cons x ts)
  obtain s f d where x: "x = (s, f, d)"
    by (cases x) auto
  have i: "ip_processImage env log b (actualSize s d) f = ip_processImage env [] b (actualSize s d) f"
    using assms(1) by blast
  have u: "sd_upload env (log @ [Transform b (actualSize s d) f]) n y =
           sd_upload env ([] @ [Transform b (actualSize s d) f]) n y" for n y
    using assms(2) by blast
  have "variant_result env fn b log s f d = variant_result env fn b [] s f d"
    unfolding variant_result_def i u ..
  then show ?case
    using Cons.IH by (simp add: x)
qed

lemma successful_paths_map:
  "successful_paths t (map (\<lambda>(s, f, d). ((s, f, d), g s f d)) ts) =
     concat (map (\<lambda>(s, f, d).
        if ftype f = t then (case g s f d of None \<Rightarrow> [] | Some p \<Rightarrow> [p]) else []) ts)"
  by (induction ts) (auto simp: successful_paths_def split: option.splits)

text \<open>
  Claim C2. Whenever the input passes validation and the decodability check and the
  original is uploaded, the call resolves, whatever the image processor and the storage
  driver answer for the variants: for each configured format type the result lists exactly
  the paths that the storage driver returned for the combinations of that type for which
  the image processor returned an image and the storage driver accepted the upload, in the
  order of the loops; a combination whose transform or whose upload is rejected adds
  nothing. When the two collaborators answer the same at every history, the list is the
  list of the combinations of the type, each replaced by the path returned for it or left
  out when either collaborator rejects it.
\<close>

theorem partial_failure_isolation:
  assumes "validateFile (Some buffer) fn mimeType maxSize = Inr ()"
    and "ip_validateImage env log buffer = Inr True"
    and "originalPath = generateOriginalPath (uuidv4 env (log @ [ValidateImage buffer])) fn None"
    and "sd_upload env (log @ [ValidateImage buffer]) originalPath buffer = Inr p"
  shows "fst (processImage env config (Some buffer) fn mimeType maxSize log) =
     Inr \<lparr>original = originalPath,
          generated = (\<lambda>t. if t \<in> ftype ` set (formats config)
             then Some (successful_paths t
                    (outcomes env fn buffer
                       (log @ [ValidateImage buffer, Upload originalPath buffer])
                       (tuples config)))
             else None)\<rparr>
   \<and> ((\<forall>l l' x s f. ip_processImage env l x s f = ip_processImage env l' x s f)
        \<and> (\<forall>l l' n x. sd_upload env l n x = sd_upload env l' n x) \<longrightarrow>
      fst (processImage env config (Some buffer) fn mimeType maxSize log) =
        Inr \<lparr>original = originalPath,
             generated = (\<lambda>t. if t \<in> ftype ` set (formats config)
                then Some (concat (map (\<lambda>(s, f, d).
                       if ftype f = t
                       then (case ip_processImage env [] buffer (actualSize s d) f of
                               Inl e \<Rightarrow> []
                             | Inr img \<Rightarrow>
                                 (case sd_upload env []
                                         (spec_variant_name fn (width s) (ftype f) d)
                                         (p_buffer img) of
                                    Inl e \<Rightarrow> []
                                  | Inr path \<Rightarrow> [path]))
                       else [])
                     (tuples config)))
                else None)\<rparr>)"
proof (intro conjI impI)
  show g: "fst (processImage env config (Some buffer) fn mimeType maxSize log) =
     Inr \<lparr>original = originalPath,
          generated = (\<lambda>t. if t \<in> ftype ` set (formats config)
             then Some (successful_paths t
                    (outcomes env fn buffer
                       (log @ [ValidateImage buffer, Upload originalPath buffer])
                       (tuples config)))
             else None)\<rparr>"
    by (simp add: processImage_ok [OF assms refl] generate_variants_generated
        stored_paths_outcomes cong: if_cong)
  assume st: "(\<forall>l l' x s f. ip_processImage env l x s f = ip_processImage env l' x s f)
        \<and> (\<forall>l l' n x. sd_upload env l n x = sd_upload env l' n x)"
  have u: "sd_upload env ([] @ [Transform buffer (actualSize s d) f]) n y = sd_upload env [] n y"
    for s d f n y
    using st by blast
  have r: "(case variant_result env fn buffer [] s f d of None \<Rightarrow> [] | Some path \<Rightarrow> [path]) =
           (case ip_processImage env [] buffer (actualSize s d) f of
              Inl e \<Rightarrow> []
            | Inr img \<Rightarrow>
                (case sd_upload env [] (spec_variant_name fn (width s) (ftype f) d)
                        (p_buffer img) of
                   Inl e \<Rightarrow> []
                 | Inr path \<Rightarrow> [path]))" for s f d
    unfolding variant_result_def u by (simp split: sum.splits)
  have o: "outcomes env fn buffer l (tuples config) =
             map (\<lambda>(s, f, d). ((s, f, d), variant_result env fn buffer [] s f d)) (tuples config)"
    for l
    using st by (intro outcomes_stateless) blast+
  show "fst (processImage env config (Some buffer) fn mimeType maxSize log) =
        Inr \<lparr>original = originalPath,
             generated = (\<lambda>t. if t \<in> ftype ` set (formats config)
                then Some (concat (map (\<lambda>(s, f, d).
                       if ftype f = t
                       then (case ip_processImage env [] buffer (actualSize s d) f of
                               Inl e \<Rightarrow> []
                             | Inr img \<Rightarrow>
                                 (case sd_upload env []
                                         (spec_variant_name fn (width s) (ftype f) d)
                                         (p_buffer img) of
                                    Inl e \<Rightarrow> []
                                  | Inr path \<Rightarrow> [path]))
                       else [])
                     (tuples config)))
                else None)\<rparr>"
    unfolding g o successful_paths_map r ..
qed


lemma originalPath_pic:
  "generateOriginalPath ''0'' ''pic.jpg'' None = ''/uploads/originals/0.jpg''"
  by (simp add: generateOriginalPath_def generateOriginalFileName_def getFileExtension_def
      lastIndexOf_def substring_from_def clamp_index_def)


lemma spec_variant_name_pic:
  "spec_variant_name ''pic.jpg'' w t d =
     ''pic_'' @ numberToString w @ ''w@'' @ numberToString d @ ''x.'' @ t"
  by (simp add: spec_variant_name_def spec_basename_def)

lemma successful_failing_variant:
  "successful_paths ''webp''
     (outcomes failing_variant_services ''pic.jpg'' [1, 2] log (tuples example_config)) =
     [''pic_320w@1x.webp'', ''pic_320w@2x.webp'',
      ''pic_640w@1x.webp'', ''pic_640w@2x.webp'', ''pic_640w@3x.webp'']"
  "successful_paths ''avif''
     (outcomes failing_variant_services ''pic.jpg'' [1, 2] log (tuples example_config)) =
     [''pic_320w@1x.avif'', ''pic_320w@2x.avif'', ''pic_320w@3x.avif'',
      ''pic_640w@1x.avif'', ''pic_640w@3x.avif'']"
  by (simp_all add: tuples_def example_config_def variant_result_def variant_calls_def
      actualSize_def failing_variant_services_def mock_services_def spec_variant_name_pic
      numberToString_small successful_paths_def)

theorem partial_failure_isolation_witness:
  "validateFile (Some [1, 2]) ''pic.jpg'' None None = Inr ()
   \<and> ip_validateImage failing_variant_services [] [1, 2] = Inr True
   \<and> sd_upload failing_variant_services [ValidateImage [1, 2]] ''/uploads/originals/0.jpg''
        [1, 2] = Inr ''/uploads/originals/0.jpg''
   \<and> ip_processImage failing_variant_services [] [1, 2] \<lparr>width = 1280, height = None\<rparr>
        \<lparr>ftype = ''avif'', quality = Some 80\<rparr> = Inl (new_Error ''Processing failed'')
   \<and> sd_upload failing_variant_services [] ''pic_320w@3x.webp'' mock_processed =
        Inl (new_Error ''Storage failed'')
   \<and> generated_of (processImage failing_variant_services example_config (Some [1, 2])
         ''pic.jpg'' None None []) ''webp'' =
       Some [''pic_320w@1x.webp'', ''pic_320w@2x.webp'',
             ''pic_640w@1x.webp'', ''pic_640w@2x.webp'', ''pic_640w@3x.webp'']
   \<and> generated_of (processImage failing_variant_services example_config (Some [1, 2])
         ''pic.jpg'' None None []) ''avif'' =
       Some [''pic_320w@1x.avif'', ''pic_320w@2x.avif'', ''pic_320w@3x.avif'',
             ''pic_640w@1x.avif'', ''pic_640w@3x.avif'']"
proof -
  have v: "ip_validateImage failing_variant_services [] [1, 2] = Inr True"
    by (simp add: failing_variant_services_def mock_services_def)
  have p: "''/uploads/originals/0.jpg'' =
     generateOriginalPath (uuidv4 failing_variant_services ([] @ [ValidateImage [1, 2]]))
       ''pic.jpg'' None"
    by (simp add: failing_variant_services_def mock_services_def originalPath_pic)
  have u: "sd_upload failing_variant_services ([] @ [ValidateImage [1, 2]])
             ''/uploads/originals/0.jpg'' [1, 2] = Inr ''/uploads/originals/0.jpg''"
    by (simp add: failing_variant_services_def mock_services_def)
  have r: "ip_processImage failing_variant_services [] [1, 2] \<lparr>width = 1280, height = None\<rparr>
        \<lparr>ftype = ''avif'', quality = Some 80\<rparr> = Inl (new_Error ''Processing failed'')"
    "sd_upload failing_variant_services [] ''pic_320w@3x.webp'' mock_processed =
        Inl (new_Error ''Storage failed'')"
    by (simp_all add: failing_variant_services_def mock_services_def)
  have f: "''webp'' \<in> ftype ` set (formats example_config)"
    "''avif'' \<in> ftype ` set (formats example_config)"
    by (simp_all add: example_config_def)
  note t = partial_failure_isolation [OF validateFile_pic v p u, of example_config]
  show ?thesis
    using conjunct1 [OF t] v u r validateFile_pic f
    by (simp add: generated_of_def successful_failing_variant)
qed

subsection \<open>When every transform and every upload succeeds\<close>












lemma mock_services_succeed:
  "ip_validateImage mock_services l b = Inr True"
  "\<forall>l b s f. \<exists>img. ip_processImage mock_services l b s f = Inr img"
  "\<forall>l n d. \<exists>q. sd_upload mock_services l n d = Inr q"
  "\<forall>l n d. sd_upload mock_services l n d = Inr n"
  "uuidv4 mock_services l = ''0''"
  by (simp_all add: mock_services_def)



subsection \<open>The keys of the result\<close>

lemma processImage_resolves:
  assumes "fst (processImage env config buffer fn mimeType maxSize log) = Inr r"
  shows "\<exists>b log2. generated r =
           fst (generate_variants env config fn b (init_generated (formats config), log2))"
proof -
  have "\<exists>log2. generated r =
           fst (generate_variants env config fn (case buffer of None \<Rightarrow> [] | Some b \<Rightarrow> b)
                  (init_generated (formats config), log2))"
    using assms
    by (auto simp: processImage_def processImage_try_def Let_def
        split: prod.splits sum.splits if_splits)
  then show ?thesis by blast
qed

lemma tuples_empty:
  "sizes config = [] \<or> formats config = [] \<or> ratios (dpr config) = [] \<Longrightarrow> tuples config = []"
  by (auto simp: tuples_def)

text \<open>
  Claim C5. In the result of every call that resolves, the type of every configured format
  is a key of the generated map; when the list of sizes, of formats or of DPR ratios is
  empty, every list in the map is empty. An empty axis is no error: the call resolves
  whenever the input passes validation and the decodability check and the original is
  uploaded.
\<close>

theorem generated_keys:
  "(fst (processImage env config buffer fn mimeType maxSize log) = Inr r \<longrightarrow>
      (\<forall>f \<in> set (formats config). \<exists>ps. generated r (ftype f) = Some ps)
      \<and> (sizes config = [] \<or> formats config = [] \<or> ratios (dpr config) = [] \<longrightarrow>
           (\<forall>t ps. generated r t = Some ps \<longrightarrow> ps = [])))
   \<and> (validateFile (Some b) fn mimeType maxSize = Inr ()
        \<and> ip_validateImage env log b = Inr True
        \<and> sd_upload env (log @ [ValidateImage b])
            (generateOriginalPath (uuidv4 env (log @ [ValidateImage b])) fn None) b = Inr p \<longrightarrow>
      (\<exists>res. fst (processImage env config (Some b) fn mimeType maxSize log) = Inr res))"
proof (intro conjI impI)
  assume "fst (processImage env config buffer fn mimeType maxSize log) = Inr r"
  then obtain b' log2 where
    g: "generated r =
          fst (generate_variants env config fn b' (init_generated (formats config), log2))"
    using processImage_resolves by blast
  show "\<forall>f \<in> set (formats config). \<exists>ps. generated r (ftype f) = Some ps"
    by (simp add: g generate_variants_generated)
  assume "sizes config = [] \<or> formats config = [] \<or> ratios (dpr config) = []"
  then have "tuples config = []"
    by (rule tuples_empty)
  then show "\<forall>t ps. generated r t = Some ps \<longrightarrow> ps = []"
    by (auto simp: g generate_variants_generated stored_paths_def split: if_splits)
next
  assume "validateFile (Some b) fn mimeType maxSize = Inr ()
        \<and> ip_validateImage env log b = Inr True
        \<and> sd_upload env (log @ [ValidateImage b])
            (generateOriginalPath (uuidv4 env (log @ [ValidateImage b])) fn None) b = Inr p"
  then show "\<exists>res. fst (processImage env config (Some b) fn mimeType maxSize log) = Inr res"
    by (simp add: processImage_ok [OF _ _ refl _ refl])
qed

theorem generated_keys_witness:
  "validateFile (Some [1, 2]) ''pic.jpg'' None None = Inr ()
   \<and> ip_validateImage mock_services [] [1, 2] = Inr True
   \<and> sd_upload mock_services ([] @ [ValidateImage [1, 2]])
        (generateOriginalPath (uuidv4 mock_services ([] @ [ValidateImage [1, 2]])) ''pic.jpg'' None)
        [1, 2] = Inr ''/uploads/originals/0.jpg''
   \<and> sizes no_sizes_config = []
   \<and> fst (processImage mock_services no_sizes_config (Some [1, 2]) ''pic.jpg'' None None []) =
     Inr \<lparr>original = ''/uploads/originals/0.jpg'',
          generated = (\<lambda>t. if t \<in> ftype ` set (formats no_sizes_config) then Some [] else None)\<rparr>
   \<and> generated_of (processImage mock_services no_sizes_config (Some [1, 2]) ''pic.jpg''
         None None []) ''webp'' = Some []
   \<and> generated_of (processImage mock_services no_sizes_config (Some [1, 2]) ''pic.jpg''
         None None []) ''avif'' = Some []"
proof -
  define r where "r = \<lparr>original = ''/uploads/originals/0.jpg'',
          generated = (\<lambda>t. if t \<in> ftype ` set (formats no_sizes_config)
                           then Some ([] :: string list) else None)\<rparr>"
  have p: "''/uploads/originals/0.jpg'' =
     generateOriginalPath (uuidv4 mock_services ([] @ [ValidateImage [1, 2]])) ''pic.jpg'' None"
    by (simp add: mock_services_succeed originalPath_pic)
  have u: "sd_upload mock_services ([] @ [ValidateImage [1, 2]]) ''/uploads/originals/0.jpg''
             [1, 2] = Inr ''/uploads/originals/0.jpg''"
    by (simp add: mock_services_succeed)
  have s: "sizes no_sizes_config = []"
    by (simp add: no_sizes_config_def)
  have t: "tuples no_sizes_config = []"
    by (simp add: tuples_def s)
  have h: "fst (processImage mock_services no_sizes_config (Some [1, 2]) ''pic.jpg''
             None None []) = Inr r"
    by (simp add: processImage_ok [OF validateFile_pic mock_services_succeed(1) p u refl]
        generate_variants_generated t stored_paths_def r_def cong: if_cong)
  have f: "\<lparr>ftype = ''webp'', quality = Some 80\<rparr> \<in> set (formats no_sizes_config)"
    "\<lparr>ftype = ''avif'', quality = Some 80\<rparr> \<in> set (formats no_sizes_config)"
    by (simp_all add: no_sizes_config_def)
  note k = generated_keys [of mock_services no_sizes_config "Some [1, 2]" "''pic.jpg''" None None
      "[]" r "[1, 2]" "''/uploads/originals/0.jpg''"]
  from conjunct1 [OF k] h s
  have e: "\<forall>f \<in> set (formats no_sizes_config). generated r (ftype f) = Some []"
    by force
  have "generated r ''webp'' = Some []" "generated r ''avif'' = Some []"
    using e f by force+
  then have "generated_of (processImage mock_services no_sizes_config (Some [1, 2]) ''pic.jpg''
         None None []) ''webp'' = Some []"
    "generated_of (processImage mock_services no_sizes_config (Some [1, 2]) ''pic.jpg''
         None None []) ''avif'' = Some []"
    using h by (simp_all add: generated_of_def)
  then show ?thesis
    using h s u p validateFile_pic mock_services_succeed(1) [of "[]" "[1, 2]"]
    by (simp add: r_def)
qed

subsection \<open>The calls made for the combinations\<close>









subsection \<open>Copies made by the configuration object\<close>

lemma array_at_new_array:
  "array_at (snd (new_array h xs)) a =
     (if a = length (arrays h) then Some xs else array_at h a)"
  by (auto simp: array_at_def new_array_def nth_append)

lemma object_at_new_array: "object_at (snd (new_array h xs)) = object_at h"
  by (rule ext) (simp add: object_at_def new_array_def)

lemma object_at_mutate_array: "object_at (mutate_array h a ys) = object_at h"
  by (rule ext) (simp add: object_at_def mutate_array_def)

lemma array_at_mutate_array:
  "array_at (mutate_array h a ys) b =
     (if b = a \<and> a < length (arrays h) then Some ys else array_at h b)"
  by (auto simp: array_at_def mutate_array_def)

lemma spread_array:
  "array_at h a = Some xs \<Longrightarrow>
     spread h a = (Inr (length (arrays h)), snd (new_array h xs))"
  by (simp add: spread_def new_array_def)

lemma array_at_Some_less: "array_at h a = Some xs \<Longrightarrow> a < length (arrays h)"
  by (simp add: array_at_def split: if_splits)

lemma read_sizes_eq:
  "array_at h (sizes_field c) = Some zs \<Longrightarrow> read_sizes h c = Some (map (object_at h) zs)"
  by (simp add: read_sizes_def get_sizes_def spread_array array_at_new_array
      object_at_new_array)

text \<open>
  Claim C9. After \<^verbatim>\<open>setSizes(arr)\<close>, reading \<^verbatim>\<open>config.sizes\<close> yields the elements that
  \<open>arr\<close> had at the call, also after any later change of the array \<open>arr\<close> by the caller;
  and when \<^verbatim>\<open>config.sizes\<close> is read, any change of the array that the read returned
  leaves the value of a further read as it was. The setter stores a new array and the
  getter returns a new array each time.
\<close>

theorem config_sizes_copy_isolation:
  "(array_at h arr = Some xs \<longrightarrow>
      (\<exists>c' h1. setSizes h c arr = (Inr c', h1)
         \<and> sizes_field c' \<noteq> arr
         \<and> read_sizes h1 c' = Some (map (object_at h) xs)
         \<and> (\<forall>ys. read_sizes (mutate_array h1 arr ys) c' = read_sizes h1 c')))
   \<and> (array_at h (sizes_field c) = Some zs \<longrightarrow>
      (\<exists>r1 h1. get_sizes h c = (Inr r1, h1)
         \<and> r1 \<noteq> sizes_field c
         \<and> array_at h1 r1 = Some zs
         \<and> read_sizes h1 c = read_sizes h c
         \<and> (\<forall>ys. read_sizes (mutate_array h1 r1 ys) c = read_sizes h c)))"
proof (intro conjI impI)
  assume a: "array_at h arr = Some xs"
  define c' where "c' = c\<lparr>sizes_field := length (arrays h)\<rparr>"
  define h1 where "h1 = snd (new_array h xs)"
  have s: "setSizes h c arr = (Inr c', h1)"
    by (simp add: setSizes_def spread_array [OF a] c'_def h1_def)
  have n: "sizes_field c' \<noteq> arr"
    using array_at_Some_less [OF a] by (simp add: c'_def)
  have f: "array_at h1 (sizes_field c') = Some xs"
    by (simp add: h1_def c'_def array_at_new_array)
  have o: "object_at h1 = object_at h"
    by (simp add: h1_def object_at_new_array)
  have r: "read_sizes h1 c' = Some (map (object_at h) xs)"
    using read_sizes_eq [OF f] by (simp add: o)
  have m: "read_sizes (mutate_array h1 arr ys) c' = read_sizes h1 c'" for ys
  proof -
    have "array_at (mutate_array h1 arr ys) (sizes_field c') = Some xs"
      using n f by (simp add: array_at_mutate_array)
    from read_sizes_eq [OF this] show ?thesis
      by (simp add: r object_at_mutate_array o)
  qed
  from s n r m
  show "\<exists>c' h1. setSizes h c arr = (Inr c', h1)
         \<and> sizes_field c' \<noteq> arr
         \<and> read_sizes h1 c' = Some (map (object_at h) xs)
         \<and> (\<forall>ys. read_sizes (mutate_array h1 arr ys) c' = read_sizes h1 c')"
    by blast
next
  assume a: "array_at h (sizes_field c) = Some zs"
  define r1 where "r1 = length (arrays h)"
  define h1 where "h1 = snd (new_array h zs)"
  have g: "get_sizes h c = (Inr r1, h1)"
    by (simp add: get_sizes_def spread_array [OF a] r1_def h1_def)
  have n: "r1 \<noteq> sizes_field c"
    using array_at_Some_less [OF a] by (simp add: r1_def)
  have v: "array_at h1 r1 = Some zs"
    by (simp add: h1_def r1_def array_at_new_array)
  have f: "array_at h1 (sizes_field c) = Some zs"
    using n a by (simp add: h1_def r1_def array_at_new_array)
  have o: "object_at h1 = object_at h"
    by (simp add: h1_def object_at_new_array)
  have r: "read_sizes h1 c = read_sizes h c"
    using read_sizes_eq [OF f] read_sizes_eq [OF a] by (simp add: o)
  have m: "read_sizes (mutate_array h1 r1 ys) c = read_sizes h c" for ys
  proof -
    have "array_at (mutate_array h1 r1 ys) (sizes_field c) = Some zs"
      using n f by (auto simp: array_at_mutate_array)
    from read_sizes_eq [OF this] show ?thesis
      using read_sizes_eq [OF a] by (simp add: object_at_mutate_array o)
  qed
  from g n v r m
  show "\<exists>r1 h1. get_sizes h c = (Inr r1, h1)
         \<and> r1 \<noteq> sizes_field c
         \<and> array_at h1 r1 = Some zs
         \<and> read_sizes h1 c = read_sizes h c
         \<and> (\<forall>ys. read_sizes (mutate_array h1 r1 ys) c = read_sizes h c)"
    by blast
qed

theorem config_sizes_copy_isolation_witness:
  "array_at example_store 2 = Some [2]
   \<and> array_at example_store (sizes_field example_object) = Some [0]
   \<and> setSizes example_store example_object 2 =
       (Inr \<lparr>sizes_field = 3\<rparr>, example_store\<lparr>arrays := [[0], [0, 2], [2], [2]]\<rparr>)
   \<and> read_sizes (mutate_array (example_store\<lparr>arrays := [[0], [0, 2], [2], [2]]\<rparr>) 2 [0, 2])
        \<lparr>sizes_field = 3\<rparr> = Some [Some \<lparr>width = 200, height = None\<rparr>]
   \<and> get_sizes example_store example_object =
       (Inr 3, example_store\<lparr>arrays := [[0], [0, 2], [2], [0]]\<rparr>)
   \<and> read_sizes (mutate_array (example_store\<lparr>arrays := [[0], [0, 2], [2], [0]]\<rparr>) 3 [])
        example_object = Some [Some \<lparr>width = 320, height = None\<rparr>]"
proof -
  have a: "array_at example_store 2 = Some [2]"
    and b: "array_at example_store (sizes_field example_object) = Some [0]"
    by (simp_all add: array_at_def example_store_def example_object_def)
  have sa: "spread example_store 2 =
       (Inr 3, example_store\<lparr>arrays := [[0], [0, 2], [2], [2]]\<rparr>)"
    using spread_array [OF a] by (simp add: new_array_def example_store_def)
  have sb: "spread example_store (sizes_field example_object) =
       (Inr 3, example_store\<lparr>arrays := [[0], [0, 2], [2], [0]]\<rparr>)"
    using spread_array [OF b] by (simp add: new_array_def example_store_def)
  have s: "setSizes example_store example_object 2 =
       (Inr \<lparr>sizes_field = 3\<rparr>, example_store\<lparr>arrays := [[0], [0, 2], [2], [2]]\<rparr>)"
    unfolding setSizes_def sa by (simp add: example_object_def)
  have g: "get_sizes example_store example_object =
       (Inr 3, example_store\<lparr>arrays := [[0], [0, 2], [2], [0]]\<rparr>)"
    unfolding get_sizes_def sb by simp
  have o: "object_at example_store 2 = Some \<lparr>width = 200, height = None\<rparr>"
    "object_at example_store 0 = Some \<lparr>width = 320, height = None\<rparr>"
    by (simp_all add: object_at_def example_store_def)
  note t = config_sizes_copy_isolation [of example_store 2 "[2]" example_object "[0]"]
  from conjunct1 [OF t] a s
  have 1: "read_sizes (mutate_array (example_store\<lparr>arrays := [[0], [0, 2], [2], [2]]\<rparr>) 2 [0, 2])
        \<lparr>sizes_field = 3\<rparr> = Some [Some \<lparr>width = 200, height = None\<rparr>]"
    by (auto simp: o)
  from conjunct2 [OF t] b g
  have 2: "read_sizes (mutate_array (example_store\<lparr>arrays := [[0], [0, 2], [2], [0]]\<rparr>) 3 [])
        example_object = Some [Some \<lparr>width = 320, height = None\<rparr>]"
    using read_sizes_eq [OF b] by (auto simp: o)
  from a b s g 1 2 show ?thesis by blast
qed

text \<open>The copies are shallow: the size objects are shared, and a field assigned through
  the caller's array is seen by the next read.\<close>

lemma copies_share_size_objects:
  "read_sizes (mutate_object (example_store\<lparr>arrays := [[0], [0, 2], [2], [2]]\<rparr>) 2
       \<lparr>width = 999, height = None\<rparr>) \<lparr>sizes_field = 3\<rparr> =
     Some [Some \<lparr>width = 999, height = None\<rparr>]"
  by (simp add: read_sizes_def get_sizes_def spread_def array_at_def new_array_def
      mutate_object_def object_at_def example_store_def)

end
